theory Spec2Isabelle
  imports Main "HOL-Library.Multiset"
begin

section \<open>Request value types\<close>

text \<open>
  Modelled from the spec: the type declarations of \<^verbatim>\<open>ludic.types\<close> and
  \<^verbatim>\<open>ludic.training.types\<close> (JSON, EnvSpec, ProtocolSpec, RolloutRequest) and the
  external InferenceSpec. EnvSpec and ProtocolSpec have the same shape
  \<^verbatim>\<open>{kind: string, kwargs: mapping string -> JSON}\<close>, so one record serves both.
  A Python dict is a map from keys to values.
\<close>

datatype json = JNull | JBool bool | JInt int | JStr string | JArr "json list"
  | JObj "(string \<times> json) list"

datatype InferenceSpec = InferenceSpec json

record KindSpec =
  kind :: string
  kwargs :: "string \<rightharpoonup> json"

type_synonym EnvSpec = KindSpec
type_synonym ProtocolSpec = KindSpec

record RolloutRequest =
  env :: EnvSpec
  protocol :: ProtocolSpec
  num_episodes :: int
  env_seed :: "int option"
  sampling_seed :: "int option"
  inference :: "InferenceSpec option"
  meta :: "string \<rightharpoonup> json"

datatype error = ValueError | RequestsExhausted | IndexError

section \<open>The standard library the code calls\<close>

text \<open>
  \<^verbatim>\<open>random.Random\<close>, \<^verbatim>\<open>uuid.uuid4\<close> and \<^verbatim>\<open>queue.Queue\<close> belong to Python, not to the
  repository. They are parameters of the model: \<open>'g\<close> is the state of one
  \<^verbatim>\<open>random.Random\<close> instance, \<open>'u\<close> the state of the process's entropy source read by
  \<^verbatim>\<open>uuid4\<close>. Every operation returns its result and the state after it:
  \<open>Random seed\<close> is \<^verbatim>\<open>random.Random(seed)\<close>, \<open>randint g a b\<close> is \<^verbatim>\<open>g.randint(a, b)\<close>,
  \<open>rng_shuffle g xs\<close> is \<^verbatim>\<open>g.shuffle(xs)\<close> (the list after the in-place shuffle) and
  \<open>uuid4 u\<close> is \<^verbatim>\<open>str(uuid.uuid4())\<close>. A queue is a state \<open>'q\<close> with a function
  \<open>get_nowait\<close> that returns an item or reports \<^verbatim>\<open>queue.Empty\<close> (\<open>None\<close>).
\<close>

record ('g, 'u) stdlib =
  Random :: "int \<Rightarrow> 'g"
  randint :: "'g \<Rightarrow> int \<Rightarrow> int \<Rightarrow> int \<times> 'g"
  rng_shuffle :: "'g \<Rightarrow> nat list \<Rightarrow> nat list \<times> 'g"
  uuid4 :: "'u \<Rightarrow> string \<times> 'u"

section \<open>intra\_batch\_control.py\<close>

text \<open>The fields of a strategy object; \<open>self_rng\<close> is \<^verbatim>\<open>self._rng\<close>.\<close>

record 'g GRPORequestStrategy =
  group_size :: int
  self_rng :: 'g

text \<open>
  \<^verbatim>\<open>GRPORequestStrategy.__init__\<close>; \<open>g0\<close> is the generator \<^verbatim>\<open>random.Random()\<close> returns,
  seeded from the system's entropy.
\<close>

definition GRPORequestStrategy_init :: "int \<Rightarrow> 'g \<Rightarrow> error + 'g GRPORequestStrategy" where
  "GRPORequestStrategy_init G g0 =
     (if G \<le> 0 then Inl ValueError else Inr \<lparr>group_size = G, self_rng = g0\<rparr>)"

text \<open>The body of the inner loop: \<^verbatim>\<open>replace(base_req, ...)\<close> for variant \<open>i\<close>.\<close>

definition new_req :: "RolloutRequest \<Rightarrow> int \<Rightarrow> int \<Rightarrow> string \<Rightarrow> nat \<Rightarrow> RolloutRequest" where
  "new_req base_req group_env_seed base_sampling_seed group_id i =
     base_req\<lparr>env_seed := Some group_env_seed,
              sampling_seed := Some (base_sampling_seed + int i),
              meta := (meta base_req)(''group_id'' \<mapsto> JStr group_id),
              num_episodes := 1\<rparr>"

text \<open>
  The outer loop of \<^verbatim>\<open>expand\<close> over the remaining requests, with the generator, the
  entropy source and the list \<^verbatim>\<open>expanded_requests\<close> built so far.
\<close>

fun expand_loop :: "('g, 'u) stdlib \<Rightarrow> int \<Rightarrow> RolloutRequest list \<Rightarrow> 'g \<Rightarrow> 'u
    \<Rightarrow> RolloutRequest list \<Rightarrow> RolloutRequest list \<times> 'g \<times> 'u" where
  "expand_loop L G [] g u expanded_requests = (expanded_requests, g, u)"
| "expand_loop L G (base_req # rest) g u expanded_requests =
     (let (group_env_seed, g1) =
            (case env_seed base_req of
               Some s \<Rightarrow> (s, g)
             | None \<Rightarrow> randint L g 0 (2 ^ 32 - 1));
          (base_sampling_seed, g2) =
            (case sampling_seed base_req of
               Some s \<Rightarrow> (s, g1)
             | None \<Rightarrow> randint L g1 0 (2 ^ 32 - 1));
          (group_id, u1) = uuid4 L u
      in expand_loop L G rest g2 u1
           (expanded_requests
            @ map (new_req base_req group_env_seed base_sampling_seed group_id)
                [0..<nat G]))"

definition GRPO_expand :: "('g, 'u) stdlib \<Rightarrow> 'g GRPORequestStrategy \<Rightarrow> RolloutRequest list
    \<Rightarrow> 'u \<Rightarrow> RolloutRequest list \<times> 'g GRPORequestStrategy \<times> 'u" where
  "GRPO_expand L self requests u =
     (case expand_loop L (group_size self) requests (self_rng self) u [] of
        (out, g', u') \<Rightarrow> (out, self\<lparr>self_rng := g'\<rparr>, u'))"

datatype 'g RequestStrategy = IdentityStrategy | GRPO "'g GRPORequestStrategy"

fun expand :: "('g, 'u) stdlib \<Rightarrow> 'g RequestStrategy \<Rightarrow> RolloutRequest list \<Rightarrow> 'u
    \<Rightarrow> RolloutRequest list \<times> 'g RequestStrategy \<times> 'u" where
  "expand L IdentityStrategy requests u = (requests, IdentityStrategy, u)"
| "expand L (GRPO self) requests u =
     (case GRPO_expand L self requests u of (out, self', u') \<Rightarrow> (out, GRPO self', u'))"

section \<open>requests\_from\_dataset.py: the queue-backed source\<close>

text \<open>
  The variables captured by the closure \<^verbatim>\<open>_fn\<close> of \<^verbatim>\<open>make_requests_fn_from_queue\<close>.
  The strategy object is captured by reference, so the state of its generator lives here.
\<close>

record ('a, 'g) queue_fn =
  qf_batch_size :: int
  qf_build_request :: "'a \<Rightarrow> RolloutRequest"
  qf_strategy :: "'g RequestStrategy option"
  qf_on_empty :: string

definition make_requests_fn_from_queue :: "int \<Rightarrow> ('a \<Rightarrow> RolloutRequest)
    \<Rightarrow> 'g RequestStrategy option \<Rightarrow> string \<Rightarrow> error + ('a, 'g) queue_fn" where
  "make_requests_fn_from_queue batch_size build_request strategy on_empty =
     (if batch_size \<le> 0 then Inl ValueError
      else Inr \<lparr>qf_batch_size = batch_size, qf_build_request = build_request,
                qf_strategy = strategy, qf_on_empty = on_empty\<rparr>)"

text \<open>
  The loop \<^verbatim>\<open>for _ in range(batch_size)\<close> of \<^verbatim>\<open>_fn\<close>, with the number of rounds left, the
  queue and the list \<^verbatim>\<open>reqs\<close> built so far; \<^verbatim>\<open>queue.Empty\<close> breaks out of it.
\<close>

fun pull_loop :: "('q \<Rightarrow> 'a option \<times> 'q) \<Rightarrow> ('a \<Rightarrow> RolloutRequest) \<Rightarrow> nat \<Rightarrow> 'q
    \<Rightarrow> RolloutRequest list \<Rightarrow> RolloutRequest list \<times> 'q" where
  "pull_loop get_nowait build_request 0 q reqs = (reqs, q)"
| "pull_loop get_nowait build_request (Suc n) q reqs =
     (case get_nowait q of
        (None, q') \<Rightarrow> (reqs, q')
      | (Some item, q') \<Rightarrow> pull_loop get_nowait build_request n q' (reqs @ [build_request item]))"

text \<open>One call of the closure \<^verbatim>\<open>_fn\<close>: the result or the exception, and the state after.\<close>

definition queue_produce_batch :: "('q \<Rightarrow> 'a option \<times> 'q) \<Rightarrow> ('g, 'u) stdlib
    \<Rightarrow> ('a, 'g) queue_fn \<Rightarrow> 'q \<Rightarrow> 'u
    \<Rightarrow> (error + RolloutRequest list) \<times> ('a, 'g) queue_fn \<times> 'q \<times> 'u" where
  "queue_produce_batch get_nowait L fn q u =
     (case pull_loop get_nowait (qf_build_request fn) (nat (qf_batch_size fn)) q [] of
        (reqs, q') \<Rightarrow>
          if reqs = [] then
            (if qf_on_empty fn = ''return_empty'' then (Inr [], fn, q', u)
             else (Inl RequestsExhausted, fn, q', u))
          else
            (case qf_strategy fn of
               Some strategy \<Rightarrow>
                 (case expand L strategy reqs u of
                    (out, strategy', u') \<Rightarrow> (Inr out, fn\<lparr>qf_strategy := Some strategy'\<rparr>, q', u'))
             | None \<Rightarrow> (Inr reqs, fn, q', u)))"

section \<open>requests\_from\_dataset.py: per-sample construction\<close>

text \<open>
  The keyword arguments the two dataset factories share. \<open>inference_arg\<close> and
  \<open>group_size_arg\<close> are the arguments \<^verbatim>\<open>inference\<close> and \<^verbatim>\<open>group_size\<close>.
\<close>

record dataset_args =
  batch_size :: int
  env_kind :: string
  protocol_kind :: string
  inference_arg :: "InferenceSpec option"
  env_kwargs_fn :: "(json \<Rightarrow> (string \<rightharpoonup> json)) option"
  protocol_kwargs :: "(string \<rightharpoonup> json) option"
  request_meta_fn :: "(int \<Rightarrow> json \<Rightarrow> (string \<rightharpoonup> json)) option"
  env_seed_fn :: "(int \<Rightarrow> json \<Rightarrow> int) option"
  sampling_seed_fn :: "(int \<Rightarrow> json \<Rightarrow> int) option"
  group_size_arg :: int

definition env_kwargs_fn_final :: "dataset_args \<Rightarrow> json \<Rightarrow> (string \<rightharpoonup> json)" where
  "env_kwargs_fn_final A =
     (case env_kwargs_fn A of None \<Rightarrow> (\<lambda>sample. [''sample'' \<mapsto> sample]) | Some f \<Rightarrow> f)"

definition protocol_kwargs_final :: "dataset_args \<Rightarrow> (string \<rightharpoonup> json)" where
  "protocol_kwargs_final A = (case protocol_kwargs A of Some d \<Rightarrow> d | None \<Rightarrow> Map.empty)"

definition env_seed_fn_final :: "dataset_args \<Rightarrow> int \<Rightarrow> json \<Rightarrow> int" where
  "env_seed_fn_final A = (case env_seed_fn A of None \<Rightarrow> (\<lambda>idx _. idx) | Some f \<Rightarrow> f)"

definition sampling_seed_fn_final :: "dataset_args \<Rightarrow> int \<Rightarrow> json \<Rightarrow> int" where
  "sampling_seed_fn_final A =
     (case sampling_seed_fn A of None \<Rightarrow> (\<lambda>idx _. idx) | Some f \<Rightarrow> f)"

text \<open>
  \<^verbatim>\<open>_build\<close> of \<^verbatim>\<open>make_dataset_queue_requests_fn\<close>; the sequence factory builds its
  requests with the same expression, written inline. The seed functions return Python
  ints, on which \<^verbatim>\<open>int(...)\<close> is the identity.
\<close>

definition build :: "dataset_args \<Rightarrow> int \<times> json \<Rightarrow> RolloutRequest" where
  "build A item =
     (case item of (idx, sample) \<Rightarrow>
        \<lparr>env = \<lparr>kind = env_kind A, kwargs = env_kwargs_fn_final A sample\<rparr>,
         protocol = \<lparr>kind = protocol_kind A, kwargs = protocol_kwargs_final A\<rparr>,
         num_episodes = 1,
         env_seed = Some (env_seed_fn_final A idx sample),
         sampling_seed = Some (sampling_seed_fn_final A idx sample),
         inference = inference_arg A,
         meta = (case request_meta_fn A of None \<Rightarrow> Map.empty | Some f \<Rightarrow> f idx sample)\<rparr>)"

text \<open>
  \<^verbatim>\<open>make_dataset_queue_requests_fn\<close>: the strategy is built first, then the queue
  closure. \<open>g0\<close> is the generator \<^verbatim>\<open>random.Random()\<close> gives the strategy.
\<close>

definition make_dataset_queue_requests_fn :: "dataset_args \<Rightarrow> string \<Rightarrow> 'g
    \<Rightarrow> error + (int \<times> json, 'g) queue_fn" where
  "make_dataset_queue_requests_fn A on_empty g0 =
     (if group_size_arg A \<noteq> 1 then
        (case GRPORequestStrategy_init (group_size_arg A) g0 of
           Inl e \<Rightarrow> Inl e
         | Inr s \<Rightarrow> make_requests_fn_from_queue (batch_size A) (build A) (Some (GRPO s)) on_empty)
      else make_requests_fn_from_queue (batch_size A) (build A) None on_empty)"

section \<open>requests\_from\_dataset.py: the sequence-backed source\<close>

text \<open>
  The variables captured by the closure \<^verbatim>\<open>_fn\<close> of \<^verbatim>\<open>make_dataset_sequence_requests_fn\<close>:
  \<open>sf_rng\<close>, \<open>sf_order\<close> and \<open>sf_pos\<close> are \<^verbatim>\<open>rng\<close>, \<^verbatim>\<open>order\<close> and \<^verbatim>\<open>pos\<close>.
\<close>

record 'g sequence_fn =
  sf_samples :: "json list"
  sf_args :: dataset_args
  sf_shuffle :: bool
  sf_strategy :: "'g RequestStrategy option"
  sf_rng :: 'g
  sf_order :: "nat list"
  sf_pos :: nat

text \<open>
  \<^verbatim>\<open>order = list(range(len(samples)))\<close> followed by \<^verbatim>\<open>if shuffle: rng.shuffle(order)\<close>: the
  factory runs these two lines once, and the closure runs them again at every wrap.
\<close>

definition fresh_order :: "('g, 'u) stdlib \<Rightarrow> json list \<Rightarrow> bool \<Rightarrow> 'g \<Rightarrow> nat list \<times> 'g" where
  "fresh_order L samples shuffle rng =
     (let order = [0..<length samples]
      in if shuffle then rng_shuffle L rng order else (order, rng))"

definition make_dataset_sequence_requests_fn :: "('g, 'u) stdlib \<Rightarrow> json list \<Rightarrow> dataset_args
    \<Rightarrow> bool \<Rightarrow> int \<Rightarrow> 'g \<Rightarrow> error + 'g sequence_fn" where
  "make_dataset_sequence_requests_fn L samples A shuffle rng_seed g0 =
     (if samples = [] then Inl ValueError
      else
        (case fresh_order L samples shuffle (Random L rng_seed) of
           (order, rng) \<Rightarrow>
             if group_size_arg A \<noteq> 1 then
               (case GRPORequestStrategy_init (group_size_arg A) g0 of
                  Inl e \<Rightarrow> Inl e
                | Inr s \<Rightarrow>
                    Inr \<lparr>sf_samples = samples, sf_args = A, sf_shuffle = shuffle,
                         sf_strategy = Some (GRPO s), sf_rng = rng, sf_order = order,
                         sf_pos = 0\<rparr>)
             else
               Inr \<lparr>sf_samples = samples, sf_args = A, sf_shuffle = shuffle,
                    sf_strategy = None, sf_rng = rng, sf_order = order, sf_pos = 0\<rparr>))"

text \<open>
  The loop \<^verbatim>\<open>for _ in range(batch_size)\<close> of the sequence closure, with the number of
  rounds left, the cursor, the order, the generator and the list \<^verbatim>\<open>reqs\<close> built so far.
  \<^verbatim>\<open>order[pos]\<close> and \<^verbatim>\<open>samples[idx]\<close> raise IndexError out of range.
\<close>

fun sequence_loop :: "('g, 'u) stdlib \<Rightarrow> json list \<Rightarrow> dataset_args \<Rightarrow> bool \<Rightarrow> nat
    \<Rightarrow> nat \<Rightarrow> nat list \<Rightarrow> 'g \<Rightarrow> RolloutRequest list
    \<Rightarrow> (error + RolloutRequest list) \<times> nat \<times> nat list \<times> 'g" where
  "sequence_loop L samples A shuffle 0 pos order rng reqs = (Inr reqs, pos, order, rng)"
| "sequence_loop L samples A shuffle (Suc n) pos order rng reqs =
     (case (if pos \<ge> length order
            then (case fresh_order L samples shuffle rng of (order', rng') \<Rightarrow> (0, order', rng'))
            else (pos, order, rng)) of
        (pos1, order1, rng1) \<Rightarrow>
          if pos1 < length order1 then
            (let idx = order1 ! pos1; pos2 = pos1 + 1
             in if idx < length samples then
                  sequence_loop L samples A shuffle n pos2 order1 rng1
                    (reqs @ [build A (int idx, samples ! idx)])
                else (Inl IndexError, pos2, order1, rng1))
          else (Inl IndexError, pos1, order1, rng1))"

text \<open>One call of the sequence closure \<^verbatim>\<open>_fn\<close>.\<close>

definition sequence_produce_batch :: "('g, 'u) stdlib \<Rightarrow> 'g sequence_fn \<Rightarrow> 'u
    \<Rightarrow> (error + RolloutRequest list) \<times> 'g sequence_fn \<times> 'u" where
  "sequence_produce_batch L fn u =
     (case sequence_loop L (sf_samples fn) (sf_args fn) (sf_shuffle fn)
             (nat (batch_size (sf_args fn))) (sf_pos fn) (sf_order fn) (sf_rng fn) [] of
        (Inl e, pos, order, rng) \<Rightarrow>
          (Inl e, fn\<lparr>sf_rng := rng, sf_order := order, sf_pos := pos\<rparr>, u)
      | (Inr reqs, pos, order, rng) \<Rightarrow>
          (case sf_strategy fn of
             Some strategy \<Rightarrow>
               (case expand L strategy reqs u of
                  (out, strategy', u') \<Rightarrow>
                    (Inr out, fn\<lparr>sf_strategy := Some strategy', sf_rng := rng,
                                 sf_order := order, sf_pos := pos\<rparr>, u'))
           | None \<Rightarrow> (Inr reqs, fn\<lparr>sf_rng := rng, sf_order := order, sf_pos := pos\<rparr>, u)))"

section \<open>Properties of grouped expansion\<close>

text \<open>The strings the next \<open>n\<close> calls of \<^verbatim>\<open>uuid4\<close> return, in order.\<close>

fun uuid_draws :: "('u \<Rightarrow> string \<times> 'u) \<Rightarrow> nat \<Rightarrow> 'u \<Rightarrow> string list" where
  "uuid_draws f 0 u = []"
| "uuid_draws f (Suc n) u = (case f u of (s, u') \<Rightarrow> s # uuid_draws f n u')"

text \<open>The group one base request expands to, given its seeds and its group id.\<close>

fun group_of :: "nat \<Rightarrow> RolloutRequest \<times> int \<times> int \<times> string \<Rightarrow> RolloutRequest list" where
  "group_of G (r, e, b, i) = map (new_req r e b i) [0..<G]"

text \<open>
  \<open>grouped G reqs out es bs gids\<close>: \<open>out\<close> is \<open>reqs\<close> expanded in groups of \<open>G\<close>. Group
  \<open>j\<close> occupies the positions \<open>j * G\<close> to \<open>j * G + G - 1\<close>; its variant \<open>i\<close> is the base
  request \<open>j\<close> with the env seed \<open>es ! j\<close>, the sampling seed \<open>bs ! j + i\<close>, the group id
  \<open>gids ! j\<close> stored under \<^verbatim>\<open>group_id\<close> and one episode; an explicit seed of the base
  request is the seed of its group.
\<close>

definition grouped :: "nat \<Rightarrow> RolloutRequest list \<Rightarrow> RolloutRequest list
    \<Rightarrow> int list \<Rightarrow> int list \<Rightarrow> string list \<Rightarrow> bool" where
  "grouped G reqs out es bs gids \<longleftrightarrow>
     length es = length reqs \<and> length bs = length reqs \<and> length gids = length reqs
     \<and> length out = length reqs * G
     \<and> (\<forall>j<length reqs. \<forall>i<G.
           out ! (j * G + i) =
             (reqs ! j)\<lparr>env_seed := Some (es ! j),
                        sampling_seed := Some (bs ! j + int i),
                        meta := (meta (reqs ! j))(''group_id'' \<mapsto> JStr (gids ! j)),
                        num_episodes := 1\<rparr>)
     \<and> (\<forall>j<length reqs. \<forall>s. env_seed (reqs ! j) = Some s \<longrightarrow> es ! j = s)
     \<and> (\<forall>j<length reqs. \<forall>s. sampling_seed (reqs ! j) = Some s \<longrightarrow> bs ! j = s)"

section \<open>Repeated calls and what they observe\<close>

text \<open>
  A first-in first-out queue that no producer feeds any more is the list of the items
  in it: \<^verbatim>\<open>get_nowait\<close> takes the head, or reports that the queue is empty.
\<close>

fun fifo_get_nowait :: "'a list \<Rightarrow> 'a option \<times> 'a list" where
  "fifo_get_nowait [] = (None, [])"
| "fifo_get_nowait (x # xs) = (Some x, xs)"

text \<open>The state of a queue after \<open>k\<close> calls of \<open>get_nowait\<close>.\<close>

fun q_after :: "('q \<Rightarrow> 'a option \<times> 'q) \<Rightarrow> nat \<Rightarrow> 'q \<Rightarrow> 'q" where
  "q_after get_nowait 0 q = q"
| "q_after get_nowait (Suc k) q = q_after get_nowait k (snd (get_nowait q))"

text \<open>
  \<open>k\<close> consecutive calls of a queue closure, and of a sequence closure: the results in
  order. A call that raises leaves the closure usable, as in Python.
\<close>

fun queue_calls :: "('q \<Rightarrow> 'a option \<times> 'q) \<Rightarrow> ('g, 'u) stdlib \<Rightarrow> nat \<Rightarrow> ('a, 'g) queue_fn
    \<Rightarrow> 'q \<Rightarrow> 'u \<Rightarrow> (error + RolloutRequest list) list" where
  "queue_calls get_nowait L 0 fn q u = []"
| "queue_calls get_nowait L (Suc k) fn q u =
     (case queue_produce_batch get_nowait L fn q u of
        (res, fn', q', u') \<Rightarrow> res # queue_calls get_nowait L k fn' q' u')"

fun calls :: "('g, 'u) stdlib \<Rightarrow> nat \<Rightarrow> 'g sequence_fn \<Rightarrow> 'u
    \<Rightarrow> (error + RolloutRequest list) list" where
  "calls L 0 fn u = []"
| "calls L (Suc k) fn u =
     (case sequence_produce_batch L fn u of (res, fn', u') \<Rightarrow> res # calls L k fn' u')"

text \<open>
  The number of \<open>get_nowait\<close> calls of a batch of at most \<open>n\<close> that obtained \<open>m\<close> items:
  \<open>n\<close> when the batch is full, and otherwise one more than the items, for the call that
  found the queue empty.
\<close>

definition pulls :: "nat \<Rightarrow> nat \<Rightarrow> nat" where
  "pulls n m = (if m = n then n else Suc m)"

text \<open>The size of a result, for a call that returned.\<close>

definition batch_len :: "error + RolloutRequest list \<Rightarrow> error + nat" where
  "batch_len res = map_sum id length res"

text \<open>The request the sequence source builds for the sample at dataset index \<open>idx\<close>.\<close>

definition request_at :: "dataset_args \<Rightarrow> json list \<Rightarrow> nat \<Rightarrow> RolloutRequest" where
  "request_at A samples idx = build A (int idx, samples ! idx)"

text \<open>
  The visitation order: the loop of the sequence closure, recording the dataset indices
  it visits instead of the requests it builds from them.
\<close>

fun visit_loop :: "('g, 'u) stdlib \<Rightarrow> json list \<Rightarrow> bool \<Rightarrow> nat
    \<Rightarrow> nat \<Rightarrow> nat list \<Rightarrow> 'g \<Rightarrow> nat list
    \<Rightarrow> (error + nat list) \<times> nat \<times> nat list \<times> 'g" where
  "visit_loop L samples shuffle 0 pos order rng idxs = (Inr idxs, pos, order, rng)"
| "visit_loop L samples shuffle (Suc n) pos order rng idxs =
     (case (if pos \<ge> length order
            then (case fresh_order L samples shuffle rng of (order', rng') \<Rightarrow> (0, order', rng'))
            else (pos, order, rng)) of
        (pos1, order1, rng1) \<Rightarrow>
          if pos1 < length order1 then
            (let idx = order1 ! pos1; pos2 = pos1 + 1
             in if idx < length samples then
                  visit_loop L samples shuffle n pos2 order1 rng1 (idxs @ [idx])
                else (Inl IndexError, pos2, order1, rng1))
          else (Inl IndexError, pos1, order1, rng1))"

text \<open>The indices visited by \<open>k\<close> consecutive batches of \<open>n\<close>, from a cursor state.\<close>

fun visits :: "('g, 'u) stdlib \<Rightarrow> json list \<Rightarrow> bool \<Rightarrow> nat \<Rightarrow> nat
    \<Rightarrow> nat \<Rightarrow> nat list \<Rightarrow> 'g \<Rightarrow> (error + nat list) list" where
  "visits L samples shuffle n 0 pos order rng = []"
| "visits L samples shuffle n (Suc k) pos order rng =
     (case visit_loop L samples shuffle n pos order rng [] of
        (res, pos', order', rng') \<Rightarrow> res # visits L samples shuffle n k pos' order' rng')"

text \<open>
  \<open>derived L fn res v\<close>: the result \<open>res\<close> of a call of the closure \<open>fn\<close> is derived from
  the visit \<open>v\<close>. It failed as the visit did, or it is the batch of the requests built
  for the visited indices, expanded by the strategy when the closure has one.
\<close>

definition derived :: "('g, 'u) stdlib \<Rightarrow> 'g sequence_fn \<Rightarrow> error + RolloutRequest list
    \<Rightarrow> error + nat list \<Rightarrow> bool" where
  "derived L fn res v =
     (case v of
        Inl e \<Rightarrow> res = Inl e
      | Inr idxs \<Rightarrow>
          (case sf_strategy fn of
             None \<Rightarrow> res = Inr (map (request_at (sf_args fn) (sf_samples fn)) idxs)
           | Some _ \<Rightarrow>
               (\<exists>strategy u. res = Inr (fst (expand L strategy
                   (map (request_at (sf_args fn) (sf_samples fn)) idxs) u)))))"

text \<open>What the library promises of \<^verbatim>\<open>shuffle\<close>: the list it leaves is a permutation.\<close>

definition shuffle_permutes :: "('g, 'u) stdlib \<Rightarrow> bool" where
  "shuffle_permutes L \<longleftrightarrow> (\<forall>g xs. mset (fst (rng_shuffle L g xs)) = mset xs)"

text \<open>The number of requests one base request grows to under the argument \<^verbatim>\<open>group_size\<close>.\<close>

definition expansion_factor :: "int \<Rightarrow> nat" where
  "expansion_factor G = (if G = 1 then 1 else nat G)"



text \<open>Variant \<open>i\<close> of the group of base request \<open>j\<close> in an expansion.\<close>

definition variant_at :: "('g, 'u) stdlib \<Rightarrow> 'g GRPORequestStrategy \<Rightarrow> RolloutRequest list \<Rightarrow> 'u
    \<Rightarrow> nat \<Rightarrow> nat \<Rightarrow> RolloutRequest" where
  "variant_at L self reqs u j i =
     fst (GRPO_expand L self reqs u) ! (j * nat (group_size self) + i)"

text \<open>
  What holds of a sequence closure between calls: the order is a permutation of the
  dataset indices, and the strategy is the one the factory built for \<^verbatim>\<open>group_size\<close>.
\<close>

definition sequence_inv :: "json list \<Rightarrow> dataset_args \<Rightarrow> 'g sequence_fn \<Rightarrow> bool" where
  "sequence_inv samples A fn \<longleftrightarrow>
     samples \<noteq> [] \<and> sf_samples fn = samples \<and> sf_args fn = A
     \<and> mset (sf_order fn) = mset [0..<length samples]
     \<and> (case sf_strategy fn of
          None \<Rightarrow> group_size_arg A = 1
        | Some IdentityStrategy \<Rightarrow> False
        | Some (GRPO self) \<Rightarrow> group_size self = group_size_arg A \<and> group_size_arg A \<noteq> 1)"

section \<open>Test data\<close>

text \<open>
  A small standard library to run the model on: the generator is a counter, a shuffle
  rotates the list, and the k-th uuid is a string of k characters.
\<close>

definition toy_stdlib :: "(nat, nat) stdlib" where
  "toy_stdlib =
     \<lparr>Random = (\<lambda>seed. nat \<bar>seed\<bar>),
      randint = (\<lambda>g a b. (a + int g mod (b - a + 1), Suc g)),
      rng_shuffle = (\<lambda>g xs. (rotate (Suc g) xs, Suc g)),
      uuid4 = (\<lambda>u. (replicate (Suc u) CHR ''x'', Suc u))\<rparr>"

definition req_a :: RolloutRequest where
  "req_a = \<lparr>env = \<lparr>kind = ''gsm8k'', kwargs = [''sample'' \<mapsto> JStr ''q1'']\<rparr>,
            protocol = \<lparr>kind = ''single_agent'', kwargs = Map.empty\<rparr>,
            num_episodes = 3, env_seed = Some 7, sampling_seed = Some 100,
            inference = None, meta = [''sample_index'' \<mapsto> JInt 7]\<rparr>"

definition req_b :: RolloutRequest where
  "req_b = \<lparr>env = \<lparr>kind = ''gsm8k'', kwargs = [''sample'' \<mapsto> JStr ''q2'']\<rparr>,
            protocol = \<lparr>kind = ''single_agent'', kwargs = Map.empty\<rparr>,
            num_episodes = 1, env_seed = None, sampling_seed = None,
            inference = None, meta = Map.empty\<rparr>"

text \<open>
  A dataset of three samples, arguments without and with grouping, and the closures
  the sequence factory builds from them with \<^verbatim>\<open>shuffle=True, rng_seed=3\<close>.
\<close>

definition samples_abc :: "json list" where
  "samples_abc = [JStr ''A'', JStr ''B'', JStr ''C'']"

definition default_args :: dataset_args where
  "default_args =
     \<lparr>batch_size = 2, env_kind = ''gsm8k'', protocol_kind = ''single_agent'',
      inference_arg = None, env_kwargs_fn = None, protocol_kwargs = None,
      request_meta_fn = None, env_seed_fn = None, sampling_seed_fn = None,
      group_size_arg = 1\<rparr>"

definition grouped_args :: dataset_args where
  "grouped_args = default_args\<lparr>env_kind := ''math'', group_size_arg := 2\<rparr>"

definition plain_source :: "nat sequence_fn" where
  "plain_source =
     \<lparr>sf_samples = samples_abc, sf_args = default_args, sf_shuffle = True,
      sf_strategy = None, sf_rng = 4, sf_order = [1, 2, 0], sf_pos = 0\<rparr>"

definition grouped_source :: "nat sequence_fn" where
  "grouped_source =
     \<lparr>sf_samples = samples_abc, sf_args = grouped_args, sf_shuffle = True,
      sf_strategy = Some (GRPO \<lparr>group_size = 2, self_rng = 9\<rparr>), sf_rng = 4,
      sf_order = [1, 2, 0], sf_pos = 0\<rparr>"

text \<open>The closures the queue factory builds from the same arguments.\<close>

definition queue_source :: "(int \<times> json, nat) queue_fn" where
  "queue_source =
     \<lparr>qf_batch_size = 2, qf_build_request = build default_args, qf_strategy = None,
      qf_on_empty = ''raise''\<rparr>"


section \<open>Auxiliary facts\<close>

lemma length_concat_uniform:
  "\<forall>xs\<in>set xss. length xs = n \<Longrightarrow> length (concat xss) = length xss * n"
  by (induction xss) simp_all

lemma concat_nth_uniform:
  "\<forall>xs\<in>set xss. length xs = n \<Longrightarrow> j < length xss \<Longrightarrow> i < n
   \<Longrightarrow> concat xss ! (j * n + i) = xss ! j ! i"
proof (induction xss arbitrary: j)
  case Nil
  then show ?case by simp
next
  case (Cons xs xss)
  show ?case
  proof (cases j)
    case 0
    with Cons.prems show ?thesis by (simp add: nth_append)
  next
    case (Suc k)
    with Cons.prems have "concat xss ! (k * n + i) = xss ! k ! i"
      by (intro Cons.IH) simp_all
    with Suc Cons.prems show ?thesis by (simp add: nth_append)
  qed
qed

lemma length_uuid_draws [simp]: "length (uuid_draws f n u) = n"
  by (induction n arbitrary: u) (simp_all split: prod.splits)

lemma expand_loop_char:
  "\<exists>es bs. length es = length reqs \<and> length bs = length reqs
     \<and> fst (expand_loop L G reqs g u acc)
         = acc @ concat (map (group_of (nat G))
                    (zip reqs (zip es (zip bs (uuid_draws (uuid4 L) (length reqs) u)))))
     \<and> list_all2 (\<lambda>r e. \<forall>s. env_seed r = Some s \<longrightarrow> e = s) reqs es
     \<and> list_all2 (\<lambda>r b. \<forall>s. sampling_seed r = Some s \<longrightarrow> b = s) reqs bs"
proof (induction reqs arbitrary: g u acc)
  case Nil
  then show ?case by simp
next
  case (Cons r rest)
  obtain e g1 where eg: "(case env_seed r of Some s \<Rightarrow> (s, g) | None \<Rightarrow> randint L g 0 (2 ^ 32 - 1)) = (e, g1)"
    by (cases "(case env_seed r of Some s \<Rightarrow> (s, g) | None \<Rightarrow> randint L g 0 (2 ^ 32 - 1))") 
  obtain b g2 where bg: "(case sampling_seed r of Some s \<Rightarrow> (s, g1) | None \<Rightarrow> randint L g1 0 (2 ^ 32 - 1)) = (b, g2)"
    by (cases "(case sampling_seed r of Some s \<Rightarrow> (s, g1) | None \<Rightarrow> randint L g1 0 (2 ^ 32 - 1))") 
  obtain i u1 where iu: "uuid4 L u = (i, u1)" by (cases "uuid4 L u")
  from Cons.IH[of g2 u1 "acc @ map (new_req r e b i) [0..<nat G]"]
  obtain es bs where IH: "length es = length rest" "length bs = length rest"
    "fst (expand_loop L G rest g2 u1 (acc @ map (new_req r e b i) [0..<nat G]))
       = (acc @ map (new_req r e b i) [0..<nat G]) @ concat (map (group_of (nat G))
                    (zip rest (zip es (zip bs (uuid_draws (uuid4 L) (length rest) u1)))))"
    "list_all2 (\<lambda>r e. \<forall>s. env_seed r = Some s \<longrightarrow> e = s) rest es"
    "list_all2 (\<lambda>r b. \<forall>s. sampling_seed r = Some s \<longrightarrow> b = s) rest bs"
    by blast
  have e: "\<forall>s. env_seed r = Some s \<longrightarrow> e = s" using eg by (auto split: option.splits)
  have b: "\<forall>s. sampling_seed r = Some s \<longrightarrow> b = s" using bg by (auto split: option.splits)
  show ?case
    apply (rule exI[of _ "e # es"], rule exI[of _ "b # bs"])
    using IH e b eg bg iu by simp
qed

lemma expand_loop_grouped:
  "\<exists>es bs. grouped (nat G) reqs (fst (expand_loop L G reqs g u [])) es bs
      (uuid_draws (uuid4 L) (length reqs) u)"
proof -
  let ?ids = "uuid_draws (uuid4 L) (length reqs) u"
  obtain es bs where len: "length es = length reqs" "length bs = length reqs"
    and out: "fst (expand_loop L G reqs g u [])
         = concat (map (group_of (nat G)) (zip reqs (zip es (zip bs ?ids))))"
    and e: "list_all2 (\<lambda>r e. \<forall>s. env_seed r = Some s \<longrightarrow> e = s) reqs es"
    and b: "list_all2 (\<lambda>r b. \<forall>s. sampling_seed r = Some s \<longrightarrow> b = s) reqs bs"
    using expand_loop_char[of reqs L G g u "[]"] by auto
  let ?xss = "map (group_of (nat G)) (zip reqs (zip es (zip bs ?ids)))"
  have uni: "\<forall>xs\<in>set ?xss. length xs = nat G" by auto
  have lx: "length ?xss = length reqs" using len by simp
  have nth: "?xss ! j = map (new_req (reqs ! j) (es ! j) (bs ! j) (?ids ! j)) [0..<nat G]"
    if "j < length reqs" for j using that len by simp
  have "length (fst (expand_loop L G reqs g u [])) = length reqs * nat G"
    unfolding out using length_concat_uniform[OF uni] lx by simp
  moreover have "fst (expand_loop L G reqs g u []) ! (j * nat G + i)
      = new_req (reqs ! j) (es ! j) (bs ! j) (?ids ! j) i"
    if "j < length reqs" "i < nat G" for j i
  proof -
    have "j < length ?xss" using that lx by simp
    from concat_nth_uniform[OF uni this that(2)] nth[OF that(1)] that(2)
    show ?thesis unfolding out by simp
  qed
  ultimately show ?thesis
    using len e b unfolding grouped_def new_req_def
    by (intro exI[of _ es] exI[of _ bs]) (simp add: list_all2_conv_all_nth)
qed

lemma fst_GRPO_expand:
  "fst (GRPO_expand L self reqs u) = fst (expand_loop L (group_size self) reqs (self_rng self) u [])"
  by (simp add: GRPO_expand_def split: prod.splits)

section \<open>Facts about the sequence-backed source\<close>

lemma sequence_loop_visit:
  "sequence_loop L samples A shuffle n pos order rng (map (request_at A samples) idxs) =
     (case visit_loop L samples shuffle n pos order rng idxs of
        (res, st) \<Rightarrow> (map_sum id (map (request_at A samples)) res, st))"
proof (induction n arbitrary: pos order rng idxs)
  case 0
  show ?case by simp
next
  case (Suc n)
  obtain pos1 order1 rng1 where c: "(if pos \<ge> length order
            then (case fresh_order L samples shuffle rng of (order', rng') \<Rightarrow> (0, order', rng'))
            else (pos, order, rng)) = (pos1, order1, rng1)"
    by (metis prod_cases3)
  have step: "map (request_at A samples) idxs @ [build A (int i, samples ! i)]
      = map (request_at A samples) (idxs @ [i])" for i
    by (simp add: request_at_def)
  show ?case
  proof (cases "pos1 < length order1 \<and> order1 ! pos1 < length samples")
    case True
    then have a: "sequence_loop L samples A shuffle (Suc n) pos order rng (map (request_at A samples) idxs)
        = sequence_loop L samples A shuffle n (pos1 + 1) order1 rng1
            (map (request_at A samples) (idxs @ [order1 ! pos1]))"
      using c by (simp only: sequence_loop.simps step Let_def split: prod.splits) simp
    from True have b: "visit_loop L samples shuffle (Suc n) pos order rng idxs
        = visit_loop L samples shuffle n (pos1 + 1) order1 rng1 (idxs @ [order1 ! pos1])"
      using c by (simp only: visit_loop.simps Let_def split: prod.splits) simp
    show ?thesis unfolding a b by (rule Suc.IH)
  next
    case False
    then show ?thesis using c
      by (simp only: sequence_loop.simps visit_loop.simps Let_def split: prod.splits) auto
  qed
qed

lemma perm_range:
  assumes "mset order = mset [0..<n]"
  shows "length order = n" and "set order = {0..<n}"
proof -
  from assms have "size (mset order) = size (mset [0..<n])" by simp
  then show "length order = n" by simp
  from assms have "set_mset (mset order) = set_mset (mset [0..<n])" by simp
  then show "set order = {0..<n}" by simp
qed

lemma fresh_order_perm:
  assumes "shuffle_permutes L" and "fresh_order L samples shuffle rng = (order, rng')"
  shows "mset order = mset [0..<length samples]"
proof (cases shuffle)
  case True
  with assms(2) have "order = fst (rng_shuffle L rng [0..<length samples])"
    by (simp add: fresh_order_def)
  with assms(1) show ?thesis by (simp add: shuffle_permutes_def)
next
  case False
  with assms(2) show ?thesis by (simp add: fresh_order_def)
qed

lemma visit_loop_total:
  assumes "shuffle_permutes L" and "samples \<noteq> []"
    and "mset order = mset [0..<length samples]"
  shows "\<exists>idxs' pos' order' rng'.
           visit_loop L samples shuffle n pos order rng idxs = (Inr (idxs @ idxs'), pos', order', rng')
           \<and> length idxs' = n \<and> set idxs' \<subseteq> {0..<length samples}
           \<and> mset order' = mset [0..<length samples]"
  using assms(3)
proof (induction n arbitrary: pos order rng idxs)
  case 0
  then show ?case by simp
next
  case (Suc n)
  obtain pos1 order1 rng1 where c: "(if pos \<ge> length order
            then (case fresh_order L samples shuffle rng of (order', rng') \<Rightarrow> (0, order', rng'))
            else (pos, order, rng)) = (pos1, order1, rng1)"
    by (metis prod_cases3)
  have p1: "mset order1 = mset [0..<length samples]" and lt: "pos1 < length order1"
  proof -
    show "mset order1 = mset [0..<length samples]"
      using c Suc.prems fresh_order_perm[OF assms(1)]
      by (auto split: if_splits prod.splits)
    from perm_range(1)[OF this] assms(2) have "0 < length order1" by simp
    with c show "pos1 < length order1" by (auto split: if_splits prod.splits)
  qed
  from perm_range(2)[OF p1] lt have idx: "order1 ! pos1 < length samples"
    by (metis atLeastLessThan_iff nth_mem)
  from Suc.IH[OF p1, of "pos1 + 1" rng1 "idxs @ [order1 ! pos1]"]
  obtain idxs' pos' order' rng' where
    r: "visit_loop L samples shuffle n (pos1 + 1) order1 rng1 (idxs @ [order1 ! pos1])
          = (Inr ((idxs @ [order1 ! pos1]) @ idxs'), pos', order', rng')"
    and l: "length idxs' = n" and s: "set idxs' \<subseteq> {0..<length samples}"
    and m: "mset order' = mset [0..<length samples]"
    by blast
  have "visit_loop L samples shuffle (Suc n) pos order rng idxs
      = (Inr (idxs @ (order1 ! pos1 # idxs')), pos', order', rng')"
    using c lt idx r by (simp del: fresh_order_def)
  with l s m idx show ?case by (intro exI[of _ "order1 ! pos1 # idxs'"]) auto
qed

lemma length_expand_loop:
  "length (fst (expand_loop L G reqs g u [])) = length reqs * nat G"
  using expand_loop_grouped[of G reqs L g u] by (auto simp: grouped_def)

lemma GRPO_expand_group_size:
  "GRPO_expand L self reqs u = (out, self', u') \<Longrightarrow> group_size self' = group_size self"
  by (auto simp: GRPO_expand_def split: prod.splits)

lemma length_GRPO_expand:
  "length (fst (GRPO_expand L self reqs u)) = length reqs * nat (group_size self)"
  by (simp add: fst_GRPO_expand length_expand_loop)

lemma make_sequence_fields:
  assumes "make_dataset_sequence_requests_fn L samples A shuffle rng_seed g0 = Inr fn"
  shows "samples \<noteq> []" and "sf_samples fn = samples" and "sf_args fn = A"
    and "sf_shuffle fn = shuffle" and "sf_pos fn = 0"
    and "(sf_order fn, sf_rng fn) = fresh_order L samples shuffle (Random L rng_seed)"
    and "sf_strategy fn = None \<longleftrightarrow> group_size_arg A = 1"
  using assms
  by (auto simp: make_dataset_sequence_requests_fn_def GRPORequestStrategy_init_def
      split: if_splits prod.splits sum.splits)

lemma make_sequence_inv:
  assumes "shuffle_permutes L"
    and "make_dataset_sequence_requests_fn L samples A shuffle rng_seed g0 = Inr fn"
  shows "sequence_inv samples A fn"
proof -
  obtain order rng where f: "fresh_order L samples shuffle (Random L rng_seed) = (order, rng)"
    by (cases "fresh_order L samples shuffle (Random L rng_seed)")
  from fresh_order_perm[OF assms(1) f] have "mset order = mset [0..<length samples]" .
  with assms(2) f show ?thesis
    by (auto simp: make_dataset_sequence_requests_fn_def GRPORequestStrategy_init_def
        sequence_inv_def split: if_splits)
qed

lemma sequence_produce_batch_visit:
  assumes "visit_loop L (sf_samples fn) (sf_shuffle fn) (nat (batch_size (sf_args fn)))
             (sf_pos fn) (sf_order fn) (sf_rng fn) [] = (v, pos', order', rng')"
  shows "\<exists>res fn' u'. sequence_produce_batch L fn u = (res, fn', u') \<and> derived L fn res v
           \<and> sf_samples fn' = sf_samples fn \<and> sf_args fn' = sf_args fn
           \<and> sf_shuffle fn' = sf_shuffle fn
           \<and> (sf_strategy fn' = None \<longleftrightarrow> sf_strategy fn = None)
           \<and> sf_pos fn' = pos' \<and> sf_order fn' = order' \<and> sf_rng fn' = rng'"
proof -
  have "sequence_loop L (sf_samples fn) (sf_args fn) (sf_shuffle fn)
          (nat (batch_size (sf_args fn))) (sf_pos fn) (sf_order fn) (sf_rng fn) []
        = (map_sum id (map (request_at (sf_args fn) (sf_samples fn))) v, pos', order', rng')"
    using sequence_loop_visit[of L "sf_samples fn" "sf_args fn" "sf_shuffle fn" _ _ _ _ "[]"] assms
    by simp
  then show ?thesis
    apply (cases v; cases "sf_strategy fn")
       apply (auto simp: sequence_produce_batch_def derived_def split: prod.splits)
    apply (metis fst_conv)
    done
qed

lemma derived_cong:
  assumes "sf_samples fn' = sf_samples fn" and "sf_args fn' = sf_args fn"
    and "sf_strategy fn' = None \<longleftrightarrow> sf_strategy fn = None"
  shows "derived L fn' = derived L fn"
  using assms by (cases "sf_strategy fn"; cases "sf_strategy fn'")
    (auto simp: derived_def fun_eq_iff split: sum.splits)

lemma calls_visits:
  "list_all2 (derived L fn) (calls L k fn u)
     (visits L (sf_samples fn) (sf_shuffle fn) (nat (batch_size (sf_args fn))) k
        (sf_pos fn) (sf_order fn) (sf_rng fn))"
proof (induction k arbitrary: fn u)
  case 0
  show ?case by simp
next
  case (Suc k)
  obtain v pos' order' rng' where
    v: "visit_loop L (sf_samples fn) (sf_shuffle fn) (nat (batch_size (sf_args fn)))
             (sf_pos fn) (sf_order fn) (sf_rng fn) [] = (v, pos', order', rng')"
    by (metis prod_cases4)
  from sequence_produce_batch_visit[OF v, of u]
  obtain res fn' u' where p: "sequence_produce_batch L fn u = (res, fn', u')"
    and d: "derived L fn res v"
    and f: "sf_samples fn' = sf_samples fn" "sf_args fn' = sf_args fn"
      "sf_shuffle fn' = sf_shuffle fn" "sf_strategy fn' = None \<longleftrightarrow> sf_strategy fn = None"
      "sf_pos fn' = pos'" "sf_order fn' = order'" "sf_rng fn' = rng'"
    by (elim exE conjE)
  from Suc.IH[of fn' u'] f derived_cong[OF f(1,2,4), of L]
  have "list_all2 (derived L fn) (calls L k fn' u')
     (visits L (sf_samples fn) (sf_shuffle fn) (nat (batch_size (sf_args fn))) k
        pos' order' rng')"
    by simp
  with p d v show ?case by simp
qed

lemma length_expand_inv:
  assumes "sequence_inv samples A fn" and "sf_strategy fn = Some strategy"
    and "expand L strategy reqs u = (out, strategy', u')"
  shows "length out = length reqs * expansion_factor (group_size_arg A)"
    and "sequence_inv samples A (fn\<lparr>sf_strategy := Some strategy', sf_rng := rng,
           sf_order := order, sf_pos := pos\<rparr>)
         \<longleftrightarrow> mset order = mset [0..<length samples]"
proof -
  from assms(1,2) obtain self where s: "strategy = GRPO self"
    "group_size self = group_size_arg A" "group_size_arg A \<noteq> 1"
    by (cases strategy) (auto simp: sequence_inv_def)
  from assms(3) s(1) obtain self' where e: "GRPO_expand L self reqs u = (out, self', u')"
    "strategy' = GRPO self'"
    by (auto split: prod.splits)
  from e(1) have "out = fst (GRPO_expand L self reqs u)" by simp
  then show "length out = length reqs * expansion_factor (group_size_arg A)"
    using s by (simp add: length_GRPO_expand expansion_factor_def)
  from GRPO_expand_group_size[OF e(1)] s e(2) assms(1)
  show "sequence_inv samples A (fn\<lparr>sf_strategy := Some strategy', sf_rng := rng,
           sf_order := order, sf_pos := pos\<rparr>)
         \<longleftrightarrow> mset order = mset [0..<length samples]"
    by (simp add: sequence_inv_def)
qed

lemma sequence_produce_batch_inv:
  assumes "shuffle_permutes L" and "sequence_inv samples A fn"
  shows "\<exists>out fn' u'. sequence_produce_batch L fn u = (Inr out, fn', u')
           \<and> length out = nat (batch_size A) * expansion_factor (group_size_arg A)
           \<and> sequence_inv samples A fn'"
proof -
  from assms(2) have f: "samples \<noteq> []" "sf_samples fn = samples" "sf_args fn = A"
    "mset (sf_order fn) = mset [0..<length samples]"
    by (simp_all add: sequence_inv_def)
  from visit_loop_total[OF assms(1) f(1) f(4), of "sf_shuffle fn" "nat (batch_size A)"
      "sf_pos fn" "sf_rng fn" "[]"]
  obtain idxs pos' order' rng' where
    v: "visit_loop L samples (sf_shuffle fn) (nat (batch_size A)) (sf_pos fn) (sf_order fn)
          (sf_rng fn) [] = (Inr idxs, pos', order', rng')"
    and l: "length idxs = nat (batch_size A)"
    and m: "mset order' = mset [0..<length samples]"
    by auto
  have sl: "sequence_loop L samples A (sf_shuffle fn) (nat (batch_size A)) (sf_pos fn)
       (sf_order fn) (sf_rng fn) [] = (Inr (map (request_at A samples) idxs), pos', order', rng')"
    using sequence_loop_visit[of L samples A "sf_shuffle fn" _ _ _ _ "[]"] v by simp
  show ?thesis
  proof (cases "sf_strategy fn")
    case None
    with sl f assms(2) l m show ?thesis
      by (simp add: sequence_produce_batch_def sequence_inv_def expansion_factor_def)
  next
    case (Some strategy)
    obtain out strategy' u' where
      e: "expand L strategy (map (request_at A samples) idxs) u = (out, strategy', u')"
      by (metis prod_cases3)
    from length_expand_inv(1)[OF assms(2) Some e]
      length_expand_inv(2)[where rng=rng' and order=order' and pos=pos', OF assms(2) Some e] l m
    have "length out = nat (batch_size A) * expansion_factor (group_size_arg A)"
      and "sequence_inv samples A (fn\<lparr>sf_strategy := Some strategy', sf_rng := rng',
           sf_order := order', sf_pos := pos'\<rparr>)"
      by simp_all
    with sl f Some e show ?thesis
      by (simp add: sequence_produce_batch_def)
  qed
qed

lemma calls_sizes:
  assumes "shuffle_permutes L" and "sequence_inv samples A fn"
  shows "map batch_len (calls L k fn u)
         = replicate k (Inr (nat (batch_size A) * expansion_factor (group_size_arg A)))"
  using assms(2)
proof (induction k arbitrary: fn u)
  case 0
  show ?case by simp
next
  case (Suc k)
  from sequence_produce_batch_inv[OF assms(1) Suc.prems, of u]
  obtain out fn' u' where p: "sequence_produce_batch L fn u = (Inr out, fn', u')"
    and l: "length out = nat (batch_size A) * expansion_factor (group_size_arg A)"
    and i: "sequence_inv samples A fn'"
    by (elim exE conjE)
  from Suc.IH[OF i, of u'] p l show ?case
    by (simp add: batch_len_def)
qed

lemma sequence_loop_round:
  assumes "shuffle_permutes L" and "samples \<noteq> []"
    and "mset order = mset [0..<length samples]"
  shows "sequence_loop L samples A shuffle (Suc n) pos order rng reqs =
           (if pos \<ge> length order then
              (case fresh_order L samples shuffle rng of
                 (order', rng') \<Rightarrow>
                   sequence_loop L samples A shuffle n 1 order' rng'
                     (reqs @ [request_at A samples (order' ! 0)]))
            else sequence_loop L samples A shuffle n (pos + 1) order rng
                   (reqs @ [request_at A samples (order ! pos)]))"
proof (cases "pos \<ge> length order")
  case True
  obtain order' rng' where f: "fresh_order L samples shuffle rng = (order', rng')"
    by (cases "fresh_order L samples shuffle rng")
  from fresh_order_perm[OF assms(1) f] have p: "mset order' = mset [0..<length samples]" .
  from perm_range(1)[OF p] assms(2) have l: "0 < length order'" by simp
  from perm_range(2)[OF p] l have "order' ! 0 < length samples"
    by (metis atLeastLessThan_iff nth_mem)
  with True f l show ?thesis by (simp add: request_at_def Let_def)
next
  case False
  then have l: "pos < length order" by simp
  from perm_range(2)[OF assms(3)] l have "order ! pos < length samples"
    by (metis atLeastLessThan_iff nth_mem)
  with False l show ?thesis by (simp add: request_at_def Let_def)
qed

lemma mset_rotate1: "mset (rotate1 xs) = mset xs"
  by (cases xs) simp_all

lemma mset_rotate: "mset (rotate n xs) = mset xs"
  by (induction n) (simp_all add: mset_rotate1)

lemma toy_permutes: "shuffle_permutes toy_stdlib"
  by (simp add: shuffle_permutes_def toy_stdlib_def mset_rotate mset_rotate1)

lemma make_plain:
  "make_dataset_sequence_requests_fn toy_stdlib samples_abc default_args True 3 0 = Inr plain_source"
  by (simp add: make_dataset_sequence_requests_fn_def fresh_order_def toy_stdlib_def
      samples_abc_def default_args_def plain_source_def eval_nat_numeral)

lemma make_grouped:
  "make_dataset_sequence_requests_fn toy_stdlib samples_abc grouped_args True 3 9 = Inr grouped_source"
  by (simp add: make_dataset_sequence_requests_fn_def fresh_order_def toy_stdlib_def
      samples_abc_def default_args_def grouped_args_def grouped_source_def eval_nat_numeral
      GRPORequestStrategy_init_def)

section \<open>Facts about the queue-backed source and the seeds\<close>



lemma pull_loop_char:
  "\<exists>items. pull_loop get_nowait build_request n q reqs
             = (reqs @ map build_request items,
                q_after get_nowait (if length items = n then n else Suc (length items)) q)
        \<and> length items \<le> n
        \<and> (\<forall>i<length items. fst (get_nowait (q_after get_nowait i q)) = Some (items ! i))
        \<and> (length items < n
             \<longrightarrow> fst (get_nowait (q_after get_nowait (length items) q)) = None)"
proof (induction n arbitrary: q reqs)
  case 0
  show ?case by simp
next
  case (Suc n)
  obtain x q' where g: "get_nowait q = (x, q')" by (cases "get_nowait q")
  show ?case
  proof (cases x)
    case None
    with g show ?thesis by (intro exI[of _ "[]"]) simp
  next
    case (Some item)
    from Suc.IH[of q' "reqs @ [build_request item]"]
    obtain items where p: "pull_loop get_nowait build_request n q' (reqs @ [build_request item])
             = ((reqs @ [build_request item]) @ map build_request items,
                q_after get_nowait (if length items = n then n else Suc (length items)) q')"
      and l: "length items \<le> n"
      and a: "\<forall>i<length items. fst (get_nowait (q_after get_nowait i q')) = Some (items ! i)"
      and e: "length items < n
             \<longrightarrow> fst (get_nowait (q_after get_nowait (length items) q')) = None"
      by (elim exE conjE)
    have "\<forall>i<length (item # items).
        fst (get_nowait (q_after get_nowait i q)) = Some ((item # items) ! i)"
    proof (intro allI impI)
      fix i assume "i < length (item # items)"
      then show "fst (get_nowait (q_after get_nowait i q)) = Some ((item # items) ! i)"
        using a g Some by (cases i) simp_all
    qed
    with p l e g Some show ?thesis
      by (intro exI[of _ "item # items"]) simp
  qed
qed





lemma queue_first_batch:
  "queue_produce_batch fifo_get_nowait toy_stdlib queue_source [(7, JStr ''q1'')] 0
     = (Inr [build default_args (7, JStr ''q1'')], queue_source, [], 0)"
  by (simp add: queue_produce_batch_def queue_source_def eval_nat_numeral)







lemma queue_produce_batch_char:
  "\<exists>items.
      length items \<le> nat (qf_batch_size fn)
      \<and> pulls (nat (qf_batch_size fn)) (length items) \<le> nat (qf_batch_size fn)
      \<and> (\<forall>i<length items. fst (get_nowait (q_after get_nowait i q)) = Some (items ! i))
      \<and> (length items < nat (qf_batch_size fn)
           \<longrightarrow> fst (get_nowait (q_after get_nowait (length items) q)) = None)
      \<and> queue_produce_batch get_nowait L fn q u =
          (if items = [] then
             (if qf_on_empty fn = ''return_empty'' then Inr [] else Inl RequestsExhausted,
              fn, q_after get_nowait (pulls (nat (qf_batch_size fn)) (length items)) q, u)
           else
             (case qf_strategy fn of
                None \<Rightarrow>
                  (Inr (map (qf_build_request fn) items), fn,
                   q_after get_nowait (pulls (nat (qf_batch_size fn)) (length items)) q, u)
              | Some strategy \<Rightarrow>
                  (case expand L strategy (map (qf_build_request fn) items) u of
                     (out, strategy', u') \<Rightarrow>
                       (Inr out, fn\<lparr>qf_strategy := Some strategy'\<rparr>,
                        q_after get_nowait (pulls (nat (qf_batch_size fn)) (length items)) q,
                        u'))))"
proof -
  from pull_loop_char[of get_nowait "qf_build_request fn" "nat (qf_batch_size fn)" q "[]"]
  obtain items where p: "pull_loop get_nowait (qf_build_request fn) (nat (qf_batch_size fn)) q []
        = (map (qf_build_request fn) items,
           q_after get_nowait (pulls (nat (qf_batch_size fn)) (length items)) q)"
    and l: "length items \<le> nat (qf_batch_size fn)"
    and a: "\<forall>i<length items. fst (get_nowait (q_after get_nowait i q)) = Some (items ! i)"
    and e: "length items < nat (qf_batch_size fn)
             \<longrightarrow> fst (get_nowait (q_after get_nowait (length items) q)) = None"
    unfolding pulls_def by auto
  from l have b: "pulls (nat (qf_batch_size fn)) (length items) \<le> nat (qf_batch_size fn)"
    by (auto simp: pulls_def)
  have "queue_produce_batch get_nowait L fn q u =
          (if items = [] then
             (if qf_on_empty fn = ''return_empty'' then Inr [] else Inl RequestsExhausted,
              fn, q_after get_nowait (pulls (nat (qf_batch_size fn)) (length items)) q, u)
           else
             (case qf_strategy fn of
                None \<Rightarrow>
                  (Inr (map (qf_build_request fn) items), fn,
                   q_after get_nowait (pulls (nat (qf_batch_size fn)) (length items)) q, u)
              | Some strategy \<Rightarrow>
                  (case expand L strategy (map (qf_build_request fn) items) u of
                     (out, strategy', u') \<Rightarrow>
                       (Inr out, fn\<lparr>qf_strategy := Some strategy'\<rparr>,
                        q_after get_nowait (pulls (nat (qf_batch_size fn)) (length items)) q,
                        u'))))"
    using p by (simp add: queue_produce_batch_def split: option.splits prod.splits)
  with l a e b show ?thesis by blast
qed

lemma GRPO_expand_len:
  "GRPO_expand L self reqs u = (out, self', u')
   \<Longrightarrow> length out = length reqs * nat (group_size self) \<and> group_size self' = group_size self"
  using length_GRPO_expand[of L self reqs u] GRPO_expand_group_size[of L self reqs u out self' u']
  by simp

lemma queue_five_plain:
  "queue_calls fifo_get_nowait L 4
     \<lparr>qf_batch_size = 2, qf_build_request = build_request, qf_strategy = None,
      qf_on_empty = on_empty\<rparr> [a, b, c, d, e] u
   = [Inr [build_request a, build_request b], Inr [build_request c, build_request d],
      Inr [build_request e],
      if on_empty = ''return_empty'' then Inr [] else Inl RequestsExhausted]"
  by (simp add: eval_nat_numeral queue_produce_batch_def)

lemma queue_five_grouped:
  "map batch_len (queue_calls fifo_get_nowait L 4
     \<lparr>qf_batch_size = 2, qf_build_request = build_request, qf_strategy = Some (GRPO self),
      qf_on_empty = on_empty\<rparr> [a, b, c, d, e] u)
   = [Inr (2 * nat (group_size self)), Inr (2 * nat (group_size self)),
      Inr (nat (group_size self)),
      if on_empty = ''return_empty'' then Inr 0 else Inl RequestsExhausted]"
  by (auto simp: eval_nat_numeral queue_produce_batch_def batch_len_def
      split: prod.splits dest!: GRPO_expand_len)

section \<open>Grouped expansion\<close>

text \<open>
  C1. For every list of N base requests and every group size G > 0, the expansion of
  GRPORequestStrategy(G) has N * G requests; the G outputs of base request j are the
  positions j * G to j * G + G - 1, in the order of the base requests; they share one
  env seed (the explicit one of the base request when it has one), their sampling seeds
  are base + i for i = 0..G-1 (base being the explicit sampling seed when there is one),
  they carry one group id under \<^verbatim>\<open>group_id\<close>, and one episode each. The group ids are the
  strings uuid4 returned, one call per base request: they are pairwise distinct when
  these calls return pairwise distinct strings.
\<close>

theorem GRPO_expand_groups:
  assumes "0 < G"
    and "GRPORequestStrategy_init G g0 = Inr self"
    and "distinct (uuid_draws (uuid4 L) (length reqs) u)"
  shows "\<exists>es bs gids. grouped (nat G) reqs (fst (GRPO_expand L self reqs u)) es bs gids
           \<and> distinct gids"
proof -
  from assms(1,2) have self: "group_size self = G"
    by (auto simp: GRPORequestStrategy_init_def)
  have "fst (GRPO_expand L self reqs u) = fst (expand_loop L G reqs (self_rng self) u [])"
    by (simp add: GRPO_expand_def self split: prod.splits)
  with expand_loop_grouped[of G reqs L "self_rng self" u] assms(3) show ?thesis
    by auto
qed

theorem GRPO_expand_groups_witness:
  "(0::int) < 2
   \<and> GRPORequestStrategy_init 2 (5::nat) = Inr \<lparr>group_size = 2, self_rng = 5\<rparr>
   \<and> distinct (uuid_draws (uuid4 toy_stdlib) (length [req_a, req_b]) 0)
   \<and> (\<exists>es bs gids.
         grouped (nat 2) [req_a, req_b]
           (fst (GRPO_expand toy_stdlib \<lparr>group_size = 2, self_rng = 5\<rparr> [req_a, req_b] 0))
           es bs gids
         \<and> distinct gids)"
proof -
  have h1: "(0::int) < 2" by simp
  have h2: "GRPORequestStrategy_init 2 (5::nat) = Inr \<lparr>group_size = 2, self_rng = 5\<rparr>"
    by (simp add: GRPORequestStrategy_init_def)
  have h3: "distinct (uuid_draws (uuid4 toy_stdlib) (length [req_a, req_b]) 0)"
    by (simp add: toy_stdlib_def)
  from GRPO_expand_groups[OF h1 h2 h3] h1 h2 h3 show ?thesis by blast
qed


text \<open>
  C6. Expansion keeps an explicit env seed of a base request on every output of its
  group and an explicit sampling seed on the first output of the group; every meta key
  other than \<^verbatim>\<open>group_id\<close> has in each output the value it has in the base request, and
  env, protocol and inference are those of the base request. The input requests are
  values: the expansion is a new list, and nothing is written to its argument.
\<close>

theorem GRPO_expand_frame:
  assumes "j < length reqs" and "i < nat (group_size self)"
  shows "(\<forall>s. env_seed (reqs ! j) = Some s \<longrightarrow> env_seed (variant_at L self reqs u j i) = Some s)
       \<and> (\<forall>s. sampling_seed (reqs ! j) = Some s
             \<longrightarrow> sampling_seed (variant_at L self reqs u j 0) = Some s)
       \<and> (\<forall>k. k \<noteq> ''group_id'' \<longrightarrow> meta (variant_at L self reqs u j i) k = meta (reqs ! j) k)
       \<and> env (variant_at L self reqs u j i) = env (reqs ! j)
       \<and> protocol (variant_at L self reqs u j i) = protocol (reqs ! j)
       \<and> inference (variant_at L self reqs u j i) = inference (reqs ! j)"
proof -
  obtain es bs where g: "grouped (nat (group_size self)) reqs (fst (GRPO_expand L self reqs u))
      es bs (uuid_draws (uuid4 L) (length reqs) u)"
    using expand_loop_grouped[of "group_size self" reqs L "self_rng self" u]
    by (auto simp: fst_GRPO_expand)
  have pos: "0 < nat (group_size self)" using assms(2) by simp
  from g assms have vi: "variant_at L self reqs u j i =
      (reqs ! j)\<lparr>env_seed := Some (es ! j), sampling_seed := Some (bs ! j + int i),
        meta := (meta (reqs ! j))(''group_id'' \<mapsto> JStr (uuid_draws (uuid4 L) (length reqs) u ! j)),
        num_episodes := 1\<rparr>"
    unfolding grouped_def variant_at_def by blast
  from g assms(1) pos have v0: "variant_at L self reqs u j 0 =
      (reqs ! j)\<lparr>env_seed := Some (es ! j), sampling_seed := Some (bs ! j + int 0),
        meta := (meta (reqs ! j))(''group_id'' \<mapsto> JStr (uuid_draws (uuid4 L) (length reqs) u ! j)),
        num_episodes := 1\<rparr>"
    unfolding grouped_def variant_at_def by blast
  from g assms(1) have e: "\<forall>s. env_seed (reqs ! j) = Some s \<longrightarrow> es ! j = s"
    and b: "\<forall>s. sampling_seed (reqs ! j) = Some s \<longrightarrow> bs ! j = s"
    unfolding grouped_def by blast+
  show ?thesis using e b by (simp add: vi v0)
qed

theorem GRPO_expand_frame_witness:
  "(0::nat) < length [req_a, req_b] \<and> (1::nat) < nat (group_size \<lparr>group_size = 2, self_rng = 5::nat\<rparr>)
   \<and> env_seed (variant_at toy_stdlib \<lparr>group_size = 2, self_rng = 5\<rparr> [req_a, req_b] 0 0 1) = Some 7
   \<and> sampling_seed (variant_at toy_stdlib \<lparr>group_size = 2, self_rng = 5\<rparr> [req_a, req_b] 0 0 0) = Some 100
   \<and> meta (variant_at toy_stdlib \<lparr>group_size = 2, self_rng = 5\<rparr> [req_a, req_b] 0 0 1) ''sample_index''
       = Some (JInt 7)
   \<and> env (variant_at toy_stdlib \<lparr>group_size = 2, self_rng = 5\<rparr> [req_a, req_b] 0 0 1) = env req_a"
proof -
  have h1: "(0::nat) < length [req_a, req_b]" by simp
  have h2: "(1::nat) < nat (group_size \<lparr>group_size = 2, self_rng = 5::nat\<rparr>)" by simp
  from GRPO_expand_frame[OF h1 h2, of toy_stdlib 0] h1 h2 show ?thesis
    by (simp add: req_a_def)
qed


section \<open>The sequence-backed source\<close>

text \<open>
  C3, as the code has it. For every sequence-backed source the factory builds (a
  non-empty dataset, any batch size, shuffle flag, rng seed and group size it accepts),
  with a library shuffle that returns a permutation, every call of produce_batch returns
  and never fails, and the batch has batch_size * group_size requests (batch_size
  requests when group_size is 1, the case without a strategy). In each round of the
  loop a cursor at the end of the order is set back to the start, on a fresh order that
  is shuffled with the source's own generator when shuffle is enabled, and the round
  then serves the sample under the cursor.
\<close>

theorem sequence_batch_total:
  assumes "shuffle_permutes L"
    and "make_dataset_sequence_requests_fn L samples A shuffle rng_seed g0 = Inr fn"
  shows "map batch_len (calls L k fn u)
           = replicate k (Inr (nat (batch_size A) * expansion_factor (group_size_arg A)))
       \<and> (mset order = mset [0..<length samples] \<longrightarrow>
            sequence_loop L samples A shuffle (Suc n) pos order rng reqs =
              (if pos \<ge> length order then
                 (case fresh_order L samples shuffle rng of
                    (order', rng') \<Rightarrow>
                      sequence_loop L samples A shuffle n 1 order' rng'
                        (reqs @ [request_at A samples (order' ! 0)]))
               else sequence_loop L samples A shuffle n (pos + 1) order rng
                      (reqs @ [request_at A samples (order ! pos)])))"
  using calls_sizes[OF assms(1) make_sequence_inv[OF assms]]
    sequence_loop_round[OF assms(1) make_sequence_fields(1)[OF assms(2)]]
  by blast

theorem sequence_batch_total_witness:
  "shuffle_permutes toy_stdlib
   \<and> make_dataset_sequence_requests_fn toy_stdlib samples_abc grouped_args True 3 9
       = Inr grouped_source
   \<and> mset [0, 1, 2] = mset [0..<length samples_abc]
   \<and> map batch_len (calls toy_stdlib 3 grouped_source 0) = [Inr 4, Inr 4, Inr 4]
   \<and> sequence_loop toy_stdlib samples_abc grouped_args True (Suc 0) 3 [0, 1, 2] 4 []
       = (Inr [request_at grouped_args samples_abc 2], 1, [2, 0, 1], 5)"
proof -
  have h3: "mset [0, 1, 2] = mset [0..<length samples_abc]"
    by (simp add: samples_abc_def eval_nat_numeral upt_rec)
  have f: "fresh_order toy_stdlib samples_abc True 4 = ([2, 0, 1], 5)"
    by (simp add: fresh_order_def toy_stdlib_def samples_abc_def eval_nat_numeral upt_rec)
  from sequence_batch_total[OF toy_permutes make_grouped, of 3 0 "[0, 1, 2]" 0 3 4 "[]"]
    toy_permutes make_grouped h3 f
  show ?thesis
    by (simp add: grouped_args_def default_args_def expansion_factor_def eval_nat_numeral)
qed

text \<open>
  C3, as stated, fails: the source over the three samples A, B, C built with batch size
  2 and group size 2, without shuffling, returns 4 requests from its first call, not 2.
\<close>

theorem sequence_batch_size_counterexample:
  "(case make_dataset_sequence_requests_fn toy_stdlib samples_abc grouped_args False 0 (9::nat) of
      Inl e \<Rightarrow> []
    | Inr fn \<Rightarrow> map batch_len (calls toy_stdlib 1 fn 0)) = [Inr 4]
   \<and> batch_size grouped_args = 2 \<and> group_size_arg grouped_args = 2
   \<and> (case make_dataset_sequence_requests_fn toy_stdlib samples_abc grouped_args False 0 (9::nat) of
      Inl e \<Rightarrow> []
    | Inr fn \<Rightarrow> map batch_len (calls toy_stdlib 1 fn 0)) \<noteq> [Inr (nat (batch_size grouped_args))]"
proof -
  obtain fn where m: "make_dataset_sequence_requests_fn toy_stdlib samples_abc grouped_args
      False 0 (9::nat) = Inr fn"
    by (simp add: make_dataset_sequence_requests_fn_def fresh_order_def samples_abc_def
      grouped_args_def default_args_def GRPORequestStrategy_init_def)
  from calls_sizes[OF toy_permutes make_sequence_inv[OF toy_permutes m], of 1 0]
  have "map batch_len (calls toy_stdlib 1 fn 0) = [Inr 4]"
    by (simp add: grouped_args_def default_args_def expansion_factor_def)
  with m show ?thesis
    by (simp add: grouped_args_def default_args_def)
qed

text \<open>
  C7. Two sources built over the same samples with the same batch size, shuffle flag and
  rng seed visit the same dataset indices, call after call and across epoch wraps,
  whatever their other arguments, the entropy their strategies were seeded with and
  the entropy uuid4 reads: the results of the calls of both are derived from one list
  of visits \<open>V\<close>, which is computed from the samples, the batch size, the shuffle flag
  and the rng seed alone.
\<close>

theorem sequence_visitation_deterministic:
  assumes "make_dataset_sequence_requests_fn L samples A1 shuffle rng_seed g1 = Inr fn1"
    and "make_dataset_sequence_requests_fn L samples A2 shuffle rng_seed g2 = Inr fn2"
    and "batch_size A1 = batch_size A2"
  shows "\<exists>V. V = (case fresh_order L samples shuffle (Random L rng_seed) of
                     (order, rng) \<Rightarrow> visits L samples shuffle (nat (batch_size A1)) k 0 order rng)
             \<and> list_all2 (derived L fn1) (calls L k fn1 u1) V
             \<and> list_all2 (derived L fn2) (calls L k fn2 u2) V"
proof -
  obtain order rng where f: "fresh_order L samples shuffle (Random L rng_seed) = (order, rng)"
    by (cases "fresh_order L samples shuffle (Random L rng_seed)")
  note m1 = make_sequence_fields[OF assms(1)] and m2 = make_sequence_fields[OF assms(2)]
  from m1(6) m2(6) f have o: "sf_order fn1 = order" "sf_rng fn1 = rng"
    "sf_order fn2 = order" "sf_rng fn2 = rng" by (metis prod.inject)+
  from calls_visits[of L fn1 k u1] calls_visits[of L fn2 k u2] m1(2-5) m2(2-5) o assms(3) f
  show ?thesis by simp
qed

theorem sequence_visitation_deterministic_witness:
  "make_dataset_sequence_requests_fn toy_stdlib samples_abc default_args True 3 0 = Inr plain_source
   \<and> make_dataset_sequence_requests_fn toy_stdlib samples_abc grouped_args True 3 9
       = Inr grouped_source
   \<and> batch_size default_args = batch_size grouped_args
   \<and> (\<exists>V. V = (case fresh_order toy_stdlib samples_abc True (Random toy_stdlib 3) of
                     (order, rng) \<Rightarrow>
                       visits toy_stdlib samples_abc True (nat (batch_size default_args)) 4 0 order rng)
          \<and> list_all2 (derived toy_stdlib plain_source) (calls toy_stdlib 4 plain_source 0) V
          \<and> list_all2 (derived toy_stdlib grouped_source) (calls toy_stdlib 4 grouped_source 7) V)"
proof -
  have h3: "batch_size default_args = batch_size grouped_args"
    by (simp add: grouped_args_def)
  from sequence_visitation_deterministic[OF make_plain make_grouped h3, of 4 0 7]
    make_plain make_grouped h3
  show ?thesis by blast
qed

text \<open>
  C4. Over the three samples [a, b, c], with batch size 5, without shuffling and without
  grouping, the first call returns the requests built from a, b, c, a, b in this order
  (each with its dataset index), and the second call starts at c and wraps around to
  the beginning again: c, a, b, c, a.
\<close>

theorem sequence_abc_order:
  "(case make_dataset_sequence_requests_fn L [a, b, c]
           (A\<lparr>batch_size := 5, group_size_arg := 1\<rparr>) False rng_seed g0 of
      Inl e \<Rightarrow> []
    | Inr fn \<Rightarrow> calls L 2 fn u)
   = [Inr (map (build (A\<lparr>batch_size := 5, group_size_arg := 1\<rparr>))
             [(0, a), (1, b), (2, c), (0, a), (1, b)]),
      Inr (map (build (A\<lparr>batch_size := 5, group_size_arg := 1\<rparr>))
             [(2, c), (0, a), (1, b), (2, c), (0, a)])]"
  by (simp add: make_dataset_sequence_requests_fn_def fresh_order_def
      sequence_produce_batch_def eval_nat_numeral upt_rec Let_def)

section \<open>The queue-backed source\<close>

text \<open>
  C2. A call of produce_batch on a queue-backed source obtains a list of items by
  consecutive \<open>get_nowait\<close> calls: at most batch_size calls, each but the last returns
  an item, and when fewer than batch_size items were obtained the call after the last
  item reported the queue empty, and no call follows it. With no item the call raises
  RequestsExhausted, or returns the empty list when the policy is \<^verbatim>\<open>return_empty\<close>; with
  one item or more it returns the requests built from the items, expanded when there
  is a strategy. With the five items a, b, c, d, e queued and batch size 2, four calls
  return batches of the items [a, b], [c, d], [e] and then raise (policy \<^verbatim>\<open>raise\<close>) or
  return [] (policy \<^verbatim>\<open>return_empty\<close>); under a grouped strategy of group size G the
  three batches have 2 * G, 2 * G and G requests.
\<close>

theorem queue_produce_batch_partial:
  "(\<exists>items.
      length items \<le> nat (qf_batch_size fn)
      \<and> pulls (nat (qf_batch_size fn)) (length items) \<le> nat (qf_batch_size fn)
      \<and> (\<forall>i<length items. fst (get_nowait (q_after get_nowait i q)) = Some (items ! i))
      \<and> (length items < nat (qf_batch_size fn)
           \<longrightarrow> fst (get_nowait (q_after get_nowait (length items) q)) = None)
      \<and> queue_produce_batch get_nowait L fn q u =
          (if items = [] then
             (if qf_on_empty fn = ''return_empty'' then Inr [] else Inl RequestsExhausted,
              fn, q_after get_nowait (pulls (nat (qf_batch_size fn)) (length items)) q, u)
           else
             (case qf_strategy fn of
                None \<Rightarrow>
                  (Inr (map (qf_build_request fn) items), fn,
                   q_after get_nowait (pulls (nat (qf_batch_size fn)) (length items)) q, u)
              | Some strategy \<Rightarrow>
                  (case expand L strategy (map (qf_build_request fn) items) u of
                     (out, strategy', u') \<Rightarrow>
                       (Inr out, fn\<lparr>qf_strategy := Some strategy'\<rparr>,
                        q_after get_nowait (pulls (nat (qf_batch_size fn)) (length items)) q,
                        u')))))
   \<and> make_requests_fn_from_queue 2 build_request None on_empty
       = Inr \<lparr>qf_batch_size = 2, qf_build_request = build_request, qf_strategy = None,
              qf_on_empty = on_empty\<rparr>
   \<and> queue_calls fifo_get_nowait L 4
         \<lparr>qf_batch_size = 2, qf_build_request = build_request, qf_strategy = None,
          qf_on_empty = ''raise''\<rparr> [a, b, c, d, e] u
       = [Inr [build_request a, build_request b], Inr [build_request c, build_request d],
          Inr [build_request e], Inl RequestsExhausted]
   \<and> queue_calls fifo_get_nowait L 4
         \<lparr>qf_batch_size = 2, qf_build_request = build_request, qf_strategy = None,
          qf_on_empty = ''return_empty''\<rparr> [a, b, c, d, e] u
       = [Inr [build_request a, build_request b], Inr [build_request c, build_request d],
          Inr [build_request e], Inr []]
   \<and> map batch_len (queue_calls fifo_get_nowait L 4
         \<lparr>qf_batch_size = 2, qf_build_request = build_request,
          qf_strategy = Some (GRPO self), qf_on_empty = ''raise''\<rparr> [a, b, c, d, e] u)
       = [Inr (2 * nat (group_size self)), Inr (2 * nat (group_size self)),
          Inr (nat (group_size self)), Inl RequestsExhausted]"
  using queue_produce_batch_char[of fn get_nowait q L u]
    queue_five_plain[of L build_request "''raise''" a b c d e u]
    queue_five_plain[of L build_request "''return_empty''" a b c d e u]
    queue_five_grouped[of L build_request self "''raise''" a b c d e u]
  by (simp add: make_requests_fn_from_queue_def)

theorem queue_produce_batch_partial_witness:
  "(\<exists>items.
      length items \<le> nat (qf_batch_size queue_source)
      \<and> pulls (nat (qf_batch_size queue_source)) (length items)
          \<le> nat (qf_batch_size queue_source)
      \<and> fst (fifo_get_nowait (q_after fifo_get_nowait 0 [(7::int, JStr ''q1'')])) = Some (items ! 0)
      \<and> fst (fifo_get_nowait (q_after fifo_get_nowait (length items) [(7::int, JStr ''q1'')])) = None
      \<and> queue_produce_batch fifo_get_nowait toy_stdlib queue_source [(7::int, JStr ''q1'')] 0
          = (Inr (map (qf_build_request queue_source) items), queue_source,
             q_after fifo_get_nowait (pulls (nat (qf_batch_size queue_source)) (length items))
               [(7::int, JStr ''q1'')], 0))
   \<and> queue_produce_batch fifo_get_nowait toy_stdlib queue_source [(7::int, JStr ''q1'')] 0
       = (Inr [build default_args (7, JStr ''q1'')], queue_source, [], 0)"
proof -
  from queue_produce_batch_partial[of queue_source fifo_get_nowait "[(7::int, JStr ''q1'')]"
      toy_stdlib 0, THEN conjunct1]
  obtain items where l: "length items \<le> nat (qf_batch_size queue_source)"
    and b: "pulls (nat (qf_batch_size queue_source)) (length items)
          \<le> nat (qf_batch_size queue_source)"
    and a: "\<forall>i<length items.
        fst (fifo_get_nowait (q_after fifo_get_nowait i [(7::int, JStr ''q1'')])) = Some (items ! i)"
    and e: "length items < nat (qf_batch_size queue_source)
        \<longrightarrow> fst (fifo_get_nowait (q_after fifo_get_nowait (length items) [(7::int, JStr ''q1'')]))
            = None"
    and p: "queue_produce_batch fifo_get_nowait toy_stdlib queue_source [(7::int, JStr ''q1'')] 0 =
          (if items = [] then
             (if qf_on_empty queue_source = ''return_empty'' then Inr [] else Inl RequestsExhausted,
              queue_source,
              q_after fifo_get_nowait (pulls (nat (qf_batch_size queue_source)) (length items))
                [(7::int, JStr ''q1'')], 0)
           else
             (case qf_strategy queue_source of
                None \<Rightarrow>
                  (Inr (map (qf_build_request queue_source) items), queue_source,
                   q_after fifo_get_nowait (pulls (nat (qf_batch_size queue_source)) (length items))
                     [(7::int, JStr ''q1'')], 0)
              | Some strategy \<Rightarrow>
                  (case expand toy_stdlib strategy (map (qf_build_request queue_source) items) 0 of
                     (out, strategy', u') \<Rightarrow>
                       (Inr out, queue_source\<lparr>qf_strategy := Some strategy'\<rparr>,
                        q_after fifo_get_nowait
                          (pulls (nat (qf_batch_size queue_source)) (length items))
                          [(7::int, JStr ''q1'')],
                        u'))))"
    by (elim conjE exE)
  from p queue_first_batch have ne: "items \<noteq> []" by (auto split: if_splits)
  from p queue_first_batch ne have "length (map (qf_build_request queue_source) items) = 1"
    by (simp add: queue_source_def)
  then have l1: "length items = 1" by simp
  with a have a0: "fst (fifo_get_nowait (q_after fifo_get_nowait 0 [(7::int, JStr ''q1'')]))
      = Some (items ! 0)" by simp
  from l1 e have e1: "fst (fifo_get_nowait (q_after fifo_get_nowait (length items)
      [(7::int, JStr ''q1'')])) = None" by (simp add: queue_source_def)
  from p ne have p1: "queue_produce_batch fifo_get_nowait toy_stdlib queue_source
      [(7::int, JStr ''q1'')] 0
          = (Inr (map (qf_build_request queue_source) items), queue_source,
             q_after fifo_get_nowait (pulls (nat (qf_batch_size queue_source)) (length items))
               [(7::int, JStr ''q1'')], 0)"
    by (simp add: queue_source_def)
  from l b a0 e1 p1 queue_first_batch show ?thesis by blast
qed

section \<open>Checks at construction\<close>

text \<open>
  C8. What the constructors check, for every value \<open>- n \<le> 0\<close>: a group size that is
  not positive fails in GRPORequestStrategy and in both dataset factories, a batch size
  that is not positive fails in both queue factories, and an empty sample sequence fails
  in the sequence factory, all with ValueError. The sequence factory does not check its
  batch size: with a batch size that is not positive it returns a closure, and every
  call of the closure returns the empty batch.
\<close>

theorem construction_checks:
  "GRPORequestStrategy_init (- int n) g0 = Inl ValueError
   \<and> make_requests_fn_from_queue (- int n) build_request strategy on_empty = Inl ValueError
   \<and> make_dataset_queue_requests_fn (A\<lparr>batch_size := - int n\<rparr>) on_empty g0 = Inl ValueError
   \<and> make_dataset_queue_requests_fn (A\<lparr>group_size_arg := - int n\<rparr>) on_empty g0
       = Inl ValueError
   \<and> make_dataset_sequence_requests_fn L [] A shuffle rng_seed g0 = Inl ValueError
   \<and> make_dataset_sequence_requests_fn L (s # samples) (A\<lparr>group_size_arg := - int n\<rparr>)
         shuffle rng_seed g0 = Inl ValueError
   \<and> (\<exists>fn. make_dataset_sequence_requests_fn L (s # samples)
              (A\<lparr>batch_size := - int n, group_size_arg := 1\<rparr>) shuffle rng_seed g0 = Inr fn
            \<and> fst (sequence_produce_batch L fn u) = Inr [])"
  by (auto simp: GRPORequestStrategy_init_def make_requests_fn_from_queue_def
      make_dataset_queue_requests_fn_def make_dataset_sequence_requests_fn_def
      sequence_produce_batch_def split: prod.splits)

section \<open>Per-sample construction\<close>





section \<open>Expansion of the empty batch\<close>

text \<open>
  C9. Both strategies are total on the empty list: IdentityStrategy.expand([]) and
  GRPORequestStrategy(G).expand([]) return the empty list, for every strategy object \<open>self\<close>
  (so for every G > 0 it was built with), and neither the strategy's generator nor the entropy source
  read by uuid4 is advanced.
\<close>

theorem expand_empty:
  "expand L IdentityStrategy [] u = ([], IdentityStrategy, u)
   \<and> GRPO_expand L self [] u = ([], self, u)
   \<and> expand L (GRPO self) [] u = ([], GRPO self, u)"
  by (simp add: GRPO_expand_def)

end
